theory Spec2Isabelle
  imports Main "HOL-Library.Word" "HOL-Library.AList"
begin

section \<open>Values that arrive from clients\<close>

text \<open>
  The quiz server (the Express + Socket.IO part of the source, lines 162-410 of
  \<^verbatim>\<open>Leaderboard.jsx\<close>) receives event payloads that are arbitrary JavaScript values.
  A JavaScript string is a sequence of UTF-16 code units; \<^verbatim>\<open>trim\<close> and \<^verbatim>\<open>slice\<close>
  work on code units, so client strings are lists of 16-bit words.  Socket ids and the
  texts of the catalog are plain strings.
\<close>

type_synonym jstring = "16 word list"
type_synonym sid = string

text \<open>
  The values a payload field can hold.  \<open>JNum\<close> is a number with an integer value;
  \<open>JOther\<close> stands for every remaining value that can arrive (objects, arrays, numbers
  that are not integers): all of them are truthy, none is a string and none is strictly
  equal to an integer.
\<close>

datatype jsval = JUndefined | JNull | JBool bool | JNum int | JStr jstring | JOther

text \<open>
  The argument of a handler that destructures it: destructuring \<^verbatim>\<open>undefined\<close> or
  \<^verbatim>\<open>null\<close> throws a TypeError; of anything else it reads the fields (a missing field
  is \<open>JUndefined\<close>).
\<close>

datatype 'a payload = PUndefined | PNull | PFields 'a

datatype error = TypeError

fun truthy :: "jsval \<Rightarrow> bool" where
  "truthy JUndefined = False"
| "truthy JNull = False"
| "truthy (JBool b) = b"
| "truthy (JNum n) = (n \<noteq> 0)"
| "truthy (JStr s) = (s \<noteq> [])"
| "truthy JOther = True"

fun is_string :: "jsval \<Rightarrow> bool" where
  "is_string (JStr s) = True"
| "is_string v = False"

fun str_of :: "jsval \<Rightarrow> jstring" where
  "str_of (JStr s) = s"
| "str_of v = []"

text \<open>
  The code units \<^verbatim>\<open>String.prototype.trim\<close> removes: ECMAScript's WhiteSpace (TAB, VT, FF,
  ZWNBSP and the Unicode space separators) and LineTerminator (LF, CR, LS, PS).
\<close>

definition js_whitespace :: "16 word \<Rightarrow> bool" where
  "js_whitespace c =
     (c \<in> set [0x09, 0x0A, 0x0B, 0x0C, 0x0D, 0x20, 0xA0, 0x1680,
                0x2028, 0x2029, 0x202F, 0x205F, 0x3000, 0xFEFF]
      \<or> (0x2000 \<le> c \<and> c \<le> 0x200A))"

definition trim :: "jstring \<Rightarrow> jstring" where
  "trim s = rev (dropWhile js_whitespace (rev (dropWhile js_whitespace s)))"

text \<open>\<^verbatim>\<open>s.slice(0, n)\<close>: the first \<open>n\<close> code units.\<close>

definition slice0 :: "nat \<Rightarrow> jstring \<Rightarrow> jstring" where
  "slice0 n s = take n s"

text \<open>A default parameter value \<^verbatim>\<open>= true\<close> replaces \<^verbatim>\<open>undefined\<close> only.\<close>

definition default_true :: "jsval \<Rightarrow> jsval" where
  "default_true v = (if v = JUndefined then JBool True else v)"


section \<open>The question catalog\<close>

record question =
  id_q :: int
  text_q :: string
  options :: "string list"
  answerIndex :: int

definition questions :: "question list" where
  "questions =
    [\<lparr>id_q = 1,
      text_q = ''Which hook is used to manage state in a React function component?'',
      options = [''useEffect'', ''useState'', ''useContext'', ''useRef''],
      answerIndex = 1\<rparr>,
     \<lparr>id_q = 2,
      text_q = ''What prop is required to render a list with stable identity and avoid re-mounts?'',
      options = [''id'', ''key'', ''index'', ''ref''],
      answerIndex = 1\<rparr>,
     \<lparr>id_q = 3,
      text_q = ''Which hook runs after paint and is suitable for non-blocking effects?'',
      options = [''useEffect'', ''useLayoutEffect'', ''useMemo'', ''useCallback''],
      answerIndex = 0\<rparr>,
     \<lparr>id_q = 4,
      text_q = ''What should you avoid mutating directly to maintain predictability?'',
      options = [''Props and state'', ''DOM nodes'', ''Context value'', ''All of the above''],
      answerIndex = 3\<rparr>]"

text \<open>\<^verbatim>\<open>questions[i]\<close>: \<^verbatim>\<open>undefined\<close> (here \<open>None\<close>) outside the array.\<close>

definition question_at :: "int \<Rightarrow> question option" where
  "question_at i =
     (if 0 \<le> i \<and> i < int (length questions) then Some (questions ! nat i) else None)"

definition QUESTION_DURATION_MS :: nat where
  "QUESTION_DURATION_MS = 15000"


section \<open>The game state\<close>

record player =
  nickname :: jstring
  score :: int

text \<open>What the server emits: the event name with its payload, and to whom.\<close>

datatype message =
    ErrorMsg string
  | QuizState string
  | Leaderboard "(jstring \<times> int) list"
  | Question int string "string list" int nat nat
  | AnswerResult int int string
  | AnswerSaved jsval int bool bool

datatype audience = ToSocket sid | ToRoom

text \<open>
  The two functions handed to \<^verbatim>\<open>setTimeout\<close>: the closure of the question timer
  (lines 299-302, after 15000 ms) and \<^verbatim>\<open>sendQuestion\<close> itself (line 268, after 1500 ms).
\<close>

datatype callback = CbTimeUp | CbSendQuestion

text \<open>
  The module's variables, and with them what the runtime holds for the module: the
  scheduled callbacks that have neither fired nor been cleared (\<open>timers\<close>, each under
  the handle \<^verbatim>\<open>setTimeout\<close> returned), the next fresh handle, the sockets in the room
  and the log of everything emitted so far.  \<open>players\<close> is the object
  \<^verbatim>\<open>socketId -> { nickname, score }\<close> as an association list in insertion order, which
  is the order \<^verbatim>\<open>Object.values\<close> enumerates (socket ids are never array indices);
  \<open>answeredThisRound\<close> is the Set in insertion order.
\<close>

record state =
  players :: "(sid \<times> player) list"
  currentQuestionIndex :: int
  acceptingAnswers :: bool
  questionTimer :: "nat option"
  answeredThisRound :: "sid list"
  timers :: "(nat \<times> callback) list"
  nextHandle :: nat
  room :: "sid set"
  sent :: "(audience \<times> message) list"

definition init_state :: state where
  "init_state =
     \<lparr>players = [], currentQuestionIndex = - 1, acceptingAnswers = False,
      questionTimer = None, answeredThisRound = [], timers = [], nextHandle = 0,
      room = {}, sent = []\<rparr>"

definition emit :: "audience \<Rightarrow> message \<Rightarrow> state \<Rightarrow> state" where
  "emit a m s = s\<lparr>sent := sent s @ [(a, m)]\<rparr>"

definition setTimeout :: "callback \<Rightarrow> state \<Rightarrow> nat \<times> state" where
  "setTimeout cb s =
     (nextHandle s,
      s\<lparr>timers := timers s @ [(nextHandle s, cb)], nextHandle := Suc (nextHandle s)\<rparr>)"

text \<open>\<^verbatim>\<open>clearTimeout(null)\<close> and clearing a handle that is no longer pending do nothing.\<close>

definition clearTimeout :: "nat option \<Rightarrow> state \<Rightarrow> state" where
  "clearTimeout t s =
     (case t of None \<Rightarrow> s
      | Some h \<Rightarrow> s\<lparr>timers := filter (\<lambda>(k, cb). k \<noteq> h) (timers s)\<rparr>)"

text \<open>\<^verbatim>\<open>Set.prototype.add\<close>.\<close>

definition set_add :: "sid \<Rightarrow> sid list \<Rightarrow> sid list" where
  "set_add x xs = (if x \<in> set xs then xs else xs @ [x])"

definition resetRoundTracking :: "state \<Rightarrow> state" where
  "resetRoundTracking s = s\<lparr>answeredThisRound := []\<rparr>"

definition resetGame :: "jsval \<Rightarrow> state \<Rightarrow> state" where
  "resetGame opt s =
     (let resetScores = default_true opt;
          s1 = (if truthy resetScores
                then s\<lparr>players := map (\<lambda>(k, p). (k, p\<lparr>score := 0\<rparr>)) (players s)\<rparr>
                else s);
          s2 = s1\<lparr>currentQuestionIndex := - 1\<rparr>;
          s3 = s2\<lparr>acceptingAnswers := False\<rparr>;
          s4 = clearTimeout (questionTimer s3) s3;
          s5 = s4\<lparr>questionTimer := None\<rparr>
      in resetRoundTracking s5)"

text \<open>
  \<^verbatim>\<open>Array.prototype.sort\<close> is stable, and so is \<open>sort_key\<close>; the comparator
  \<^verbatim>\<open>b.score - a.score\<close> orders by descending score.
\<close>

definition leaderboard :: "state \<Rightarrow> (jstring \<times> int) list" where
  "leaderboard s =
     sort_key (\<lambda>(n, sc). - sc) (map (\<lambda>(k, p). (nickname p, score p)) (players s))"

definition broadcastLeaderboard :: "state \<Rightarrow> state" where
  "broadcastLeaderboard s = emit ToRoom (Leaderboard (leaderboard s)) s"

definition activePlayerCount :: "state \<Rightarrow> nat" where
  "activePlayerCount s = length (players s)"

text \<open>
  Reading \<^verbatim>\<open>q.id\<close> of an undefined \<open>q\<close> throws; nothing catches it, in a socket handler
  or in a timer callback, so the process ends there: the result is the error and no state.
\<close>

definition endQuestionAndMaybeNext :: "string \<Rightarrow> state \<Rightarrow> error + state" where
  "endQuestionAndMaybeNext summary s =
     (case question_at (currentQuestionIndex s) of
        None \<Rightarrow> Inl TypeError
      | Some q \<Rightarrow>
          let s1 = emit ToRoom (AnswerResult (id_q q) (answerIndex q) summary) s;
              s2 = broadcastLeaderboard s1
          in Inr (snd (setTimeout CbSendQuestion s2)))"

definition sendQuestion :: "state \<Rightarrow> error + state" where
  "sendQuestion s =
     (let s1 = s\<lparr>currentQuestionIndex := currentQuestionIndex s + 1\<rparr>;
          s2 = resetRoundTracking s1
      in if currentQuestionIndex s2 \<ge> int (length questions)
         then let s3 = emit ToRoom (QuizState ''finished'') s2;
                  s4 = broadcastLeaderboard s3
              in Inr (s4\<lparr>acceptingAnswers := False\<rparr>)
         else (case question_at (currentQuestionIndex s2) of
                 None \<Rightarrow> Inl TypeError
               | Some q \<Rightarrow>
                   let s3 = s2\<lparr>acceptingAnswers := True\<rparr>;
                       s4 = emit ToRoom
                              (Question (id_q q) (text_q q) (options q) (currentQuestionIndex s3)
                                 (length questions) QUESTION_DURATION_MS) s3;
                       s5 = clearTimeout (questionTimer s4) s4;
                       (h, s6) = setTimeout CbTimeUp s5
                   in Inr (s6\<lparr>questionTimer := Some h\<rparr>)))"

fun run_callback :: "callback \<Rightarrow> state \<Rightarrow> error + state" where
  "run_callback CbTimeUp s = endQuestionAndMaybeNext ''Time up!'' (s\<lparr>acceptingAnswers := False\<rparr>)"
| "run_callback CbSendQuestion s = sendQuestion s"


section \<open>The socket handlers\<close>

text \<open>The status a joiner is told (line 318).\<close>

definition join_status :: "state \<Rightarrow> string" where
  "join_status s =
     (if currentQuestionIndex s \<ge> 0 \<and> currentQuestionIndex s < int (length questions)
      then ''running'' else ''lobby'')"

definition joinQuiz :: "sid \<Rightarrow> jsval payload \<Rightarrow> state \<Rightarrow> error + state" where
  "joinQuiz c pl s =
     (case pl of
        PUndefined \<Rightarrow> Inl TypeError
      | PNull \<Rightarrow> Inl TypeError
      | PFields nick \<Rightarrow>
          if \<not> truthy nick \<or> \<not> is_string nick
          then Inr (emit (ToSocket c) (ErrorMsg ''Nickname is required'') s)
          else let s1 = s\<lparr>room := insert c (room s)\<rparr>;
                   s2 = s1\<lparr>players :=
                          AList.update c \<lparr>nickname = slice0 20 (trim (str_of nick)), score = 0\<rparr>
                            (players s1)\<rparr>;
                   s3 = emit (ToSocket c) (QuizState (join_status s2)) s2
               in Inr (broadcastLeaderboard s3))"

definition startQuiz :: "sid \<Rightarrow> state \<Rightarrow> error + state" where
  "startQuiz c s =
     (if currentQuestionIndex s \<noteq> - 1 then Inr s
      else sendQuestion (emit ToRoom (QuizState ''running'') s))"

definition restartQuiz :: "sid \<Rightarrow> jsval payload \<Rightarrow> state \<Rightarrow> error + state" where
  "restartQuiz c pl s =
     (case pl of
        PNull \<Rightarrow> Inl TypeError
      | PUndefined \<Rightarrow>
          sendQuestion (emit ToRoom (QuizState ''running'') (resetGame (default_true JUndefined) s))
      | PFields v \<Rightarrow>
          sendQuestion (emit ToRoom (QuizState ''running'') (resetGame (default_true v) s)))"

text \<open>
  The payload of \<^verbatim>\<open>submitAnswer\<close>.  The handler uses \<^verbatim>\<open>answerIndex\<close> only as
  \<^verbatim>\<open>Number(answerIndex)\<close>, a built-in coercion; the field \<open>answerNumber\<close> is the outcome
  of evaluating that expression: \<open>NumInt k\<close> when it is the integer \<open>k\<close>, \<open>NumOther\<close>
  when it is NaN or any number that is not an integer (which no \<^verbatim>\<open>answerIndex\<close> of the
  catalog equals), and \<open>NumThrows\<close> when the coercion throws a TypeError, as it does for
  an object whose \<^verbatim>\<open>valueOf\<close> and \<^verbatim>\<open>toString\<close> are not functions, such as
  \<^verbatim>\<open>{ toString: 1, valueOf: 1 }\<close>.
\<close>

datatype number = NumThrows | NumOther | NumInt int

record submission =
  questionId :: jsval
  answerNumber :: number

text \<open>
  \<^verbatim>\<open>players\<close> is a plain object (line 224), so the read \<^verbatim>\<open>players[socket.id]\<close> of line
  347 finds an own property, and failing that a property inherited from
  \<^verbatim>\<open>Object.prototype\<close>: a function (for \<^verbatim>\<open>__proto__\<close> the prototype object itself),
  which is truthy.  The assignment of line 314 creates an own property, \<^verbatim>\<open>delete\<close>,
  \<^verbatim>\<open>Object.values\<close> and \<^verbatim>\<open>Object.keys\<close> see own properties only, so the association list
  is the registry in all other places.  (Only for the key \<^verbatim>\<open>__proto__\<close> would the
  assignment not create an own property; Socket.IO's ids are 20 characters long, and of
  the names below only \<^verbatim>\<open>propertyIsEnumerable\<close> is.)
\<close>

definition object_prototype_names :: "sid list" where
  "object_prototype_names =
     [''constructor'', ''__defineGetter__'', ''__defineSetter__'', ''hasOwnProperty'',
      ''__lookupGetter__'', ''__lookupSetter__'', ''isPrototypeOf'', ''propertyIsEnumerable'',
      ''toString'', ''valueOf'', ''__proto__'', ''toLocaleString'']"

datatype found = Missing | Own player | Inherited

definition lookup_player :: "(sid \<times> player) list \<Rightarrow> sid \<Rightarrow> found" where
  "lookup_player ps c =
     (case map_of ps c of
        Some p \<Rightarrow> Own p
      | None \<Rightarrow> if c \<in> set object_prototype_names then Inherited else Missing)"

text \<open>
  \<^verbatim>\<open>player.score += 10\<close>: on a registry entry it updates the entry; on an inherited
  function it sets a property of that function, which nothing reads, and the registry is
  as before.
\<close>

definition credit :: "sid \<Rightarrow> found \<Rightarrow> state \<Rightarrow> state" where
  "credit c f s =
     (case f of
        Own ply \<Rightarrow> s\<lparr>players := AList.update c (ply\<lparr>score := score ply + 10\<rparr>) (players s)\<rparr>
      | Inherited \<Rightarrow> s
      | Missing \<Rightarrow> s)"

definition submitAnswer :: "sid \<Rightarrow> submission payload \<Rightarrow> state \<Rightarrow> error + state" where
  "submitAnswer c pl s =
     (case pl of
        PUndefined \<Rightarrow> Inl TypeError
      | PNull \<Rightarrow> Inl TypeError
      | PFields p \<Rightarrow>
          if \<not> acceptingAnswers s then Inr s
          else (case question_at (currentQuestionIndex s) of
                  None \<Rightarrow> Inr s
                | Some q \<Rightarrow>
                    if JNum (id_q q) \<noteq> questionId p then Inr s
                    else if c \<in> set (answeredThisRound s) then Inr s
                    else let s1 = s\<lparr>answeredThisRound := set_add c (answeredThisRound s)\<rparr>;
                             player = lookup_player (players s1) c
                         in if player = Missing then Inr s1
                            else if answerNumber p = NumThrows then Inl TypeError
                            else let correct = (answerNumber p = NumInt (answerIndex q));
                                     s2 = (if correct then credit c player s1 else s1);
                                     s3 = emit (ToSocket c)
                                            (AnswerSaved (questionId p) (answerIndex q) correct True) s2;
                                     s4 = broadcastLeaderboard s3;
                                     total = activePlayerCount s4
                                 in if total > 0 \<and> length (answeredThisRound s4) \<ge> total
                                    then let s5 = s4\<lparr>acceptingAnswers := False\<rparr>;
                                             s6 = clearTimeout (questionTimer s5) s5
                                         in endQuestionAndMaybeNext ''All players answered'' s6
                                    else Inr s4))"

definition nextQuestion :: "sid \<Rightarrow> state \<Rightarrow> error + state" where
  "nextQuestion c s =
     (if currentQuestionIndex s = - 1 then Inr s
      else let s1 = s\<lparr>acceptingAnswers := False\<rparr>;
               s2 = clearTimeout (questionTimer s1) s1
           in endQuestionAndMaybeNext ''Advanced by host'' s2)"

definition getLeaderboard :: "sid \<Rightarrow> state \<Rightarrow> error + state" where
  "getLeaderboard c s = Inr (broadcastLeaderboard s)"

definition leaveQuiz :: "sid \<Rightarrow> state \<Rightarrow> error + state" where
  "leaveQuiz c s =
     (let s1 = s\<lparr>room := room s - {c}\<rparr>;
          s2 = s1\<lparr>players := AList.delete c (players s1)\<rparr>
      in Inr (broadcastLeaderboard s2))"

text \<open>
  Socket.IO takes a socket out of its rooms before the \<^verbatim>\<open>disconnect\<close> handler runs;
  the handler itself is lines 392-402.
\<close>

definition disconnect :: "sid \<Rightarrow> state \<Rightarrow> error + state" where
  "disconnect c s =
     (let s0 = s\<lparr>room := room s - {c}\<rparr>;
          s1 = s0\<lparr>players := AList.delete c (players s0)\<rparr>;
          total = activePlayerCount s1
      in if acceptingAnswers s1 \<and> length (answeredThisRound s1) \<ge> total
         then let s2 = s1\<lparr>acceptingAnswers := False\<rparr>;
                  s3 = clearTimeout (questionTimer s2) s2
              in endQuestionAndMaybeNext ''All remaining players answered'' s3
         else Inr (broadcastLeaderboard s1))"


section \<open>The server as a transition system\<close>

text \<open>
  Node runs one handler or one timer callback at a time, each to completion.  An event is
  a client event on a socket, or the firing of the pending callback with a given handle
  (a handle that is not pending fires nothing).  The order in which the runtime delivers
  them is left open, which covers every order real time allows.
\<close>

datatype event =
    JoinQuiz sid "jsval payload"
  | StartQuiz sid
  | RestartQuiz sid "jsval payload"
  | SubmitAnswer sid "submission payload"
  | NextQuestion sid
  | GetLeaderboard sid
  | LeaveQuiz sid
  | Disconnect sid
  | TimerFires nat

definition fire :: "nat \<Rightarrow> state \<Rightarrow> error + state" where
  "fire h s =
     (case map_of (timers s) h of
        None \<Rightarrow> Inr s
      | Some cb \<Rightarrow> run_callback cb (s\<lparr>timers := filter (\<lambda>(k, cb). k \<noteq> h) (timers s)\<rparr>))"

fun step :: "event \<Rightarrow> state \<Rightarrow> error + state" where
  "step (JoinQuiz c pl) s = joinQuiz c pl s"
| "step (StartQuiz c) s = startQuiz c s"
| "step (RestartQuiz c pl) s = restartQuiz c pl s"
| "step (SubmitAnswer c pl) s = submitAnswer c pl s"
| "step (NextQuestion c) s = nextQuestion c s"
| "step (GetLeaderboard c) s = getLeaderboard c s"
| "step (LeaveQuiz c) s = leaveQuiz c s"
| "step (Disconnect c) s = disconnect c s"
| "step (TimerFires h) s = fire h s"

fun run :: "event list \<Rightarrow> state \<Rightarrow> error + state" where
  "run [] s = Inr s"
| "run (e # es) s = (case step e s of Inl err \<Rightarrow> Inl err | Inr s' \<Rightarrow> run es s')"

inductive reachable :: "state \<Rightarrow> bool" where
  reachable_init: "reachable init_state"
| reachable_step: "reachable s \<Longrightarrow> step e s = Inr s' \<Longrightarrow> reachable s'"


section \<open>Observations on a state\<close>

text \<open>
  The server keeps no status variable: the status is what it tells the clients in
  \<^verbatim>\<open>quizState\<close> events.  A client starts in \<^verbatim>\<open>'lobby'\<close> (line 69) and takes each
  \<^verbatim>\<open>quizState\<close> it receives (line 80); \<open>room_status\<close> is the status the room has been
  told last.
\<close>

fun status_after :: "string \<Rightarrow> audience \<times> message \<Rightarrow> string" where
  "status_after st (ToRoom, QuizState x) = x"
| "status_after st other = st"

definition room_status :: "state \<Rightarrow> string" where
  "room_status s = foldl status_after ''lobby'' (sent s)"

text \<open>The handles of the question timers that can still fire.\<close>

definition pending_question_timers :: "state \<Rightarrow> nat list" where
  "pending_question_timers s = map fst (filter (\<lambda>(h, cb). cb = CbTimeUp) (timers s))"

text \<open>
  Handles are fresh when they are handed out, and a pending callback is a question timer
  exactly when its handle is the one kept in \<^verbatim>\<open>questionTimer\<close>.
\<close>

definition timers_wf :: "state \<Rightarrow> bool" where
  "timers_wf s =
     ((\<forall>(h, cb) \<in> set (timers s). h < nextHandle s \<and> (cb = CbTimeUp) = (questionTimer s = Some h)) \<and>
      (\<forall>h \<in> set_option (questionTimer s). h < nextHandle s))"

definition in_bounds :: "int \<Rightarrow> bool" where
  "in_bounds i = (0 \<le> i \<and> i < int (length questions))"

definition session_inv :: "state \<Rightarrow> bool" where
  "session_inv s =
     (currentQuestionIndex s \<ge> - 1 \<and>
      (acceptingAnswers s \<longrightarrow> in_bounds (currentQuestionIndex s)) \<and>
      (currentQuestionIndex s = - 1 \<longrightarrow> timers s = []) \<and>
      (in_bounds (currentQuestionIndex s) \<longrightarrow> room_status s = ''running''))"

definition accepting_ok :: "state \<Rightarrow> bool" where
  "accepting_ok s =
     (acceptingAnswers s \<longrightarrow>
        room_status s = ''running'' \<and> join_status s = ''running'' \<and>
        0 \<le> currentQuestionIndex s \<and> currentQuestionIndex s < int (length questions))"


section \<open>Scenarios\<close>

text \<open>
  The state a trace of events leads to from the initial state (the initial state itself
  if the trace ends in an error).
\<close>

definition after :: "event list \<Rightarrow> state" where
  "after es = (case run es init_state of Inl e \<Rightarrow> init_state | Inr s \<Rightarrow> s)"

text \<open>The nickname \<^verbatim>\<open>"ab"\<close>, and a payload \<^verbatim>\<open>{ questionId: i, answerIndex: k }\<close>.\<close>

definition ab :: jstring where
  "ab = [0x61, 0x62]"

definition answer :: "int \<Rightarrow> int \<Rightarrow> submission payload" where
  "answer i k = PFields \<lparr>questionId = JNum i, answerNumber = NumInt k\<rparr>"

text \<open>One player joins and starts the quiz: the first question is open.\<close>

definition solo_round :: "event list" where
  "solo_round = [JoinQuiz ''a'' (PFields (JStr ab)), StartQuiz ''a'']"

text \<open>Two players join and the quiz starts.\<close>

definition duo_round :: "event list" where
  "duo_round =
     [JoinQuiz ''a'' (PFields (JStr ab)), JoinQuiz ''b'' (PFields (JStr ab)), StartQuiz ''a'']"

text \<open>
  Three players join, the quiz starts, two of them answer the first question and then
  leave the quiz; the third has not answered yet.
\<close>

definition trio_two_left :: "event list" where
  "trio_two_left =
     [JoinQuiz ''a'' (PFields (JStr ab)), JoinQuiz ''b'' (PFields (JStr ab)),
      JoinQuiz ''c'' (PFields (JStr ab)), StartQuiz ''a'',
      SubmitAnswer ''a'' (answer 1 1), SubmitAnswer ''b'' (answer 1 0),
      LeaveQuiz ''a'', LeaveQuiz ''b'']"

text \<open>
  The host skips the first question and, within the pause of 1500 ms that follows,
  restarts the quiz.
\<close>

definition skip_then_restart :: "event list" where
  "skip_then_restart =
     [JoinQuiz ''a'' (PFields (JStr ab)), StartQuiz ''a'', NextQuestion ''a'',
      RestartQuiz ''a'' PUndefined]"


text \<open>One player joins and starts the quiz, and the host skips the first question.\<close>

definition solo_skipped :: "event list" where
  "solo_skipped = [JoinQuiz ''a'' (PFields (JStr ab)), StartQuiz ''a'', NextQuestion ''a'']"

text \<open>Two players join, the quiz starts and the first of them answers correctly.\<close>

definition duo_scored :: "event list" where
  "duo_scored =
     [JoinQuiz ''a'' (PFields (JStr ab)), JoinQuiz ''b'' (PFields (JStr ab)), StartQuiz ''a'',
      SubmitAnswer ''a'' (answer 1 1)]"

text \<open>
  The host restarts within the pause after a skipped question, with or without resetting
  the scores.
\<close>

definition restart_in_pause :: "bool \<Rightarrow> event list" where
  "restart_in_pause b =
     [JoinQuiz ''a'' (PFields (JStr ab)), StartQuiz ''a'', NextQuestion ''a'',
      RestartQuiz ''a'' (PFields (JBool b))]"

text \<open>
  The host presses ``next'' twice in a row on the first question; 1500 ms later the two
  scheduled calls of \<^verbatim>\<open>sendQuestion\<close> (handles 1 and 2) fire one after the other and
  the third question is open.  The host does the same there (handles 5 and 6): the first
  call opens the fourth and last question, the second one finishes the quiz.
\<close>

definition double_skips :: "event list" where
  "double_skips =
     [JoinQuiz ''a'' (PFields (JStr ab)), StartQuiz ''a'',
      NextQuestion ''a'', NextQuestion ''a'', TimerFires 1, TimerFires 2,
      NextQuestion ''a'', NextQuestion ''a'', TimerFires 5, TimerFires 6]"


section \<open>The catalog and the helpers\<close>

lemma length_questions: "length questions = 4"
  by (simp add: questions_def)

lemma question_at_0: "question_at 0 = Some (questions ! 0)"
  by (simp add: question_at_def length_questions)

lemma question_fields:
  "id_q (questions ! 0) = 1" "answerIndex (questions ! 0) = 1"
  "id_q (questions ! 1) = 2" "answerIndex (questions ! 1) = 1"
  "id_q (questions ! Suc 0) = 2" "answerIndex (questions ! Suc 0) = 1"
  "id_q (questions ! 2) = 3" "answerIndex (questions ! 2) = 0"
  "id_q (questions ! 3) = 4" "answerIndex (questions ! 3) = 3"
  by (simp_all add: questions_def)

lemma question_at_SomeD: "question_at i = Some q \<Longrightarrow> in_bounds i"
  by (simp add: question_at_def in_bounds_def split: if_splits)

lemmas plumbing = emit_def broadcastLeaderboard_def setTimeout_def clearTimeout_def
  resetRoundTracking_def activePlayerCount_def set_add_def

lemma length_update_present:
  "k \<in> fst ` set al \<Longrightarrow> length (AList.update k v al) = length al"
  by (induction al) auto

lemma map_of_players_keys: "map_of al c = Some p \<Longrightarrow> c \<in> set (map fst al)"
  by (metis map_of_eq_None_iff option.distinct(1) set_map)

text \<open>What \<^verbatim>\<open>sendQuestion\<close>, \<^verbatim>\<open>endQuestionAndMaybeNext\<close> and \<^verbatim>\<open>resetGame\<close> do to the state.\<close>

lemma sendQuestion_eq:
  "sendQuestion s =
     (if currentQuestionIndex s + 1 \<ge> int (length questions)
      then Inr (s\<lparr>currentQuestionIndex := currentQuestionIndex s + 1, answeredThisRound := [],
                  sent := sent s @ [(ToRoom, QuizState ''finished''),
                    (ToRoom, Leaderboard (leaderboard s))],
                  acceptingAnswers := False\<rparr>)
      else (case question_at (currentQuestionIndex s + 1) of
              None \<Rightarrow> Inl TypeError
            | Some q \<Rightarrow>
                Inr (s\<lparr>currentQuestionIndex := currentQuestionIndex s + 1, answeredThisRound := [],
                       acceptingAnswers := True,
                       sent := sent s @ [(ToRoom, Question (id_q q) (text_q q) (options q)
                                  (currentQuestionIndex s + 1) (length questions) QUESTION_DURATION_MS)],
                       timers := filter (\<lambda>(k, cb). Some k \<noteq> questionTimer s) (timers s)
                                 @ [(nextHandle s, CbTimeUp)],
                       nextHandle := Suc (nextHandle s),
                       questionTimer := Some (nextHandle s)\<rparr>)))"
  by (cases "questionTimer s")
     (auto simp add: sendQuestion_def plumbing Let_def leaderboard_def split: option.splits)

lemma endQuestion_eq:
  "endQuestionAndMaybeNext summary s =
     (case question_at (currentQuestionIndex s) of
        None \<Rightarrow> Inl TypeError
      | Some q \<Rightarrow>
          Inr (s\<lparr>sent := sent s @ [(ToRoom, AnswerResult (id_q q) (answerIndex q) summary),
                             (ToRoom, Leaderboard (leaderboard s))],
                 timers := timers s @ [(nextHandle s, CbSendQuestion)],
                 nextHandle := Suc (nextHandle s)\<rparr>))"
  by (auto simp add: endQuestionAndMaybeNext_def plumbing Let_def leaderboard_def split: option.splits)

lemma resetGame_eq:
  "resetGame v s =
     s\<lparr>players := (if truthy (default_true v)
                      then map (\<lambda>(k, p). (k, p\<lparr>score := 0\<rparr>)) (players s) else players s),
       currentQuestionIndex := - 1, acceptingAnswers := False,
       timers := filter (\<lambda>(k, cb). Some k \<noteq> questionTimer s) (timers s),
       questionTimer := None, answeredThisRound := []\<rparr>"
  by (cases "questionTimer s") (simp_all add: resetGame_def plumbing Let_def)


section \<open>Invariants of the reachable states\<close>

subsection \<open>The index, the flag and the status told to the room\<close>

lemmas inv_simps = session_inv_def room_status_def in_bounds_def length_questions
  sendQuestion_eq endQuestion_eq plumbing Let_def

lemma inv_join: "session_inv s \<Longrightarrow> joinQuiz c pl s = Inr s' \<Longrightarrow> session_inv s'"
  by (auto simp add: joinQuiz_def inv_simps split: if_splits payload.splits)

lemma inv_start: "session_inv s \<Longrightarrow> startQuiz c s = Inr s' \<Longrightarrow> session_inv s'"
  by (auto simp add: startQuiz_def inv_simps split: if_splits option.splits dest: question_at_SomeD)

lemma inv_restart: "session_inv s \<Longrightarrow> restartQuiz c pl s = Inr s' \<Longrightarrow> session_inv s'"
  by (cases pl)
     (auto simp add: restartQuiz_def resetGame_eq inv_simps split: if_splits option.splits
        dest: question_at_SomeD)

lemma inv_submit: "session_inv s \<Longrightarrow> submitAnswer c pl s = Inr s' \<Longrightarrow> session_inv s'"
  by (auto simp add: submitAnswer_def credit_def inv_simps
      split: if_splits option.splits payload.splits found.splits)

lemma inv_next: "session_inv s \<Longrightarrow> nextQuestion c s = Inr s' \<Longrightarrow> session_inv s'"
  by (auto simp add: nextQuestion_def inv_simps split: if_splits option.splits dest: question_at_SomeD)

lemma inv_get: "session_inv s \<Longrightarrow> getLeaderboard c s = Inr s' \<Longrightarrow> session_inv s'"
  by (auto simp add: getLeaderboard_def inv_simps)

lemma inv_leave: "session_inv s \<Longrightarrow> leaveQuiz c s = Inr s' \<Longrightarrow> session_inv s'"
  by (auto simp add: leaveQuiz_def inv_simps)

lemma inv_disconnect: "session_inv s \<Longrightarrow> disconnect c s = Inr s' \<Longrightarrow> session_inv s'"
  by (auto simp add: disconnect_def inv_simps split: if_splits option.splits dest: question_at_SomeD)

lemma inv_fire: "session_inv s \<Longrightarrow> fire h s = Inr s' \<Longrightarrow> session_inv s'"
proof (cases "map_of (timers s) h")
  case None
  assume "session_inv s" "fire h s = Inr s'"
  with None show ?thesis by (simp add: fire_def)
next
  case (Some cb)
  assume "session_inv s" "fire h s = Inr s'"
  with Some show ?thesis
    by (cases cb)
       (auto simp add: fire_def inv_simps split: if_splits option.splits dest: question_at_SomeD)
qed

lemma session_inv_step: "session_inv s \<Longrightarrow> step e s = Inr s' \<Longrightarrow> session_inv s'"
  by (cases e)
     (auto intro: inv_join inv_start inv_restart inv_submit inv_next inv_get inv_leave
        inv_disconnect inv_fire)

lemma session_inv_init: "session_inv init_state"
  by (simp add: session_inv_def init_state_def in_bounds_def room_status_def)

lemma reachable_session_inv: "reachable s \<Longrightarrow> session_inv s"
  by (induction rule: reachable.induct) (auto intro: session_inv_init session_inv_step)

lemma session_inv_accepting_ok: "session_inv s \<Longrightarrow> accepting_ok s"
  by (simp add: session_inv_def accepting_ok_def in_bounds_def join_status_def)

subsection \<open>The pending callbacks\<close>

lemmas wf_simps = timers_wf_def sendQuestion_eq endQuestion_eq plumbing Let_def

lemma wf_sendQuestion: "timers_wf s \<Longrightarrow> sendQuestion s = Inr s' \<Longrightarrow> timers_wf s'"
  by (fastforce simp add: wf_simps split: if_splits option.splits)

lemma wf_endQuestion: "endQuestionAndMaybeNext sm s = Inr s' \<Longrightarrow> timers_wf s \<Longrightarrow> timers_wf s'"
  by (fastforce simp add: wf_simps split: if_splits option.splits)

lemma wf_frame:
  "timers_wf s \<Longrightarrow> timers_wf (s\<lparr>sent := x\<rparr>)"
  "timers_wf s \<Longrightarrow> timers_wf (s\<lparr>players := y\<rparr>)"
  "timers_wf s \<Longrightarrow> timers_wf (s\<lparr>room := z\<rparr>)"
  "timers_wf s \<Longrightarrow> timers_wf (s\<lparr>acceptingAnswers := b\<rparr>)"
  "timers_wf s \<Longrightarrow> timers_wf (s\<lparr>answeredThisRound := a\<rparr>)"
  "timers_wf s \<Longrightarrow> timers_wf (s\<lparr>currentQuestionIndex := i\<rparr>)"
  by (simp_all add: timers_wf_def)

lemma wf_clear: "timers_wf s \<Longrightarrow> timers_wf (clearTimeout t s)"
  by (auto simp add: timers_wf_def clearTimeout_def split: option.splits)

lemma wf_filter: "timers_wf s \<Longrightarrow> timers_wf (s\<lparr>timers := filter P (timers s)\<rparr>)"
  by (auto simp add: timers_wf_def split: option.splits)

lemma wf_emit: "timers_wf s \<Longrightarrow> timers_wf (emit a m s)"
  by (simp add: emit_def wf_frame)

lemma wf_broadcast: "timers_wf s \<Longrightarrow> timers_wf (broadcastLeaderboard s)"
  by (simp add: broadcastLeaderboard_def wf_emit)

lemma wf_resetGame: "timers_wf s \<Longrightarrow> timers_wf (resetGame v s)"
  by (auto simp add: resetGame_def timers_wf_def plumbing Let_def split: option.splits)

lemma wf_join: "timers_wf s \<Longrightarrow> joinQuiz c pl s = Inr s' \<Longrightarrow> timers_wf s'"
  by (auto simp add: joinQuiz_def wf_simps split: if_splits payload.splits)

lemma wf_start: "timers_wf s \<Longrightarrow> startQuiz c s = Inr s' \<Longrightarrow> timers_wf s'"
  by (auto simp add: startQuiz_def split: if_splits intro: wf_sendQuestion wf_emit)

lemma wf_restart: "timers_wf s \<Longrightarrow> restartQuiz c pl s = Inr s' \<Longrightarrow> timers_wf s'"
  by (auto simp add: restartQuiz_def split: payload.splits intro: wf_sendQuestion wf_emit wf_resetGame)

lemma wf_next: "timers_wf s \<Longrightarrow> nextQuestion c s = Inr s' \<Longrightarrow> timers_wf s'"
  by (auto simp add: nextQuestion_def Let_def split: if_splits
      elim!: wf_endQuestion intro!: wf_clear wf_frame)

lemma wf_submit: "timers_wf s \<Longrightarrow> submitAnswer c pl s = Inr s' \<Longrightarrow> timers_wf s'"
  by (auto simp add: submitAnswer_def credit_def Let_def set_add_def
      split: if_splits option.splits payload.splits found.splits
      elim!: wf_endQuestion intro!: wf_clear wf_frame wf_broadcast wf_emit)

lemma wf_get: "timers_wf s \<Longrightarrow> getLeaderboard c s = Inr s' \<Longrightarrow> timers_wf s'"
  by (auto simp add: getLeaderboard_def intro: wf_broadcast)

lemma wf_leave: "timers_wf s \<Longrightarrow> leaveQuiz c s = Inr s' \<Longrightarrow> timers_wf s'"
  by (auto simp add: leaveQuiz_def Let_def intro!: wf_broadcast wf_frame)

lemma wf_disconnect: "timers_wf s \<Longrightarrow> disconnect c s = Inr s' \<Longrightarrow> timers_wf s'"
  by (auto simp add: disconnect_def Let_def split: if_splits
      elim!: wf_endQuestion intro!: wf_clear wf_frame wf_broadcast)

lemma wf_fire: "timers_wf s \<Longrightarrow> fire h s = Inr s' \<Longrightarrow> timers_wf s'"
proof (cases "map_of (timers s) h")
  case None
  assume "timers_wf s" "fire h s = Inr s'"
  with None show ?thesis by (simp add: fire_def)
next
  case (Some cb)
  assume "timers_wf s" "fire h s = Inr s'"
  with Some show ?thesis
    by (cases cb)
       (auto simp add: fire_def elim!: wf_endQuestion intro: wf_sendQuestion wf_frame wf_filter)
qed

lemma timers_wf_step: "timers_wf s \<Longrightarrow> step e s = Inr s' \<Longrightarrow> timers_wf s'"
  by (cases e)
     (auto intro: wf_join wf_start wf_restart wf_submit wf_next wf_get wf_leave wf_disconnect
        wf_fire)

lemma timers_wf_init: "timers_wf init_state"
  by (simp add: timers_wf_def init_state_def)

lemma reachable_timers_wf: "reachable s \<Longrightarrow> timers_wf s"
  by (induction rule: reachable.induct) (auto intro: timers_wf_init timers_wf_step)

subsection \<open>Traces stay among the reachable states\<close>

lemma reachable_run: "reachable s \<Longrightarrow> run es s = Inr s' \<Longrightarrow> reachable s'"
proof (induction es arbitrary: s)
  case Nil
  then show ?case by simp
next
  case (Cons e es)
  then show ?case
    by (auto split: sum.splits intro: reachable_step)
qed

lemma reachable_after: "reachable (after es)"
  by (auto simp add: after_def split: sum.splits intro: reachable_init reachable_run)

section \<open>Evaluating scenarios\<close>

lemmas eval = joinQuiz_def startQuiz_def restartQuiz_def submitAnswer_def nextQuestion_def
  getLeaderboard_def leaveQuiz_def disconnect_def fire_def sendQuestion_def
  endQuestionAndMaybeNext_def resetGame_def default_true_def plumbing after_def init_state_def
  lookup_player_def credit_def object_prototype_names_def
  Let_def leaderboard_def join_status_def question_at_def length_questions question_fields
  trim_def slice0_def
  js_whitespace_def QUESTION_DURATION_MS_def ab_def answer_def

lemmas scenarios = solo_round_def duo_round_def trio_two_left_def skip_then_restart_def
  solo_skipped_def duo_scored_def restart_in_pause_def double_skips_def

section \<open>Submitting an answer\<close>

lemma lookup_player_Own: "map_of ps c = Some p \<Longrightarrow> lookup_player ps c = Own p"
  by (simp add: lookup_player_def)

lemma lookup_player_Missing: "lookup_player ps c = Missing \<Longrightarrow> map_of ps c = None"
  by (simp add: lookup_player_def split: option.splits if_splits)

lemma submitAnswer_unregistered:
  assumes "acceptingAnswers s" and "question_at (currentQuestionIndex s) = Some q"
    and "questionId p = JNum (id_q q)" and "c \<notin> set (answeredThisRound s)"
    and "lookup_player (players s) c = Missing"
  shows "submitAnswer c (PFields p) s = Inr (s\<lparr>answeredThisRound := answeredThisRound s @ [c]\<rparr>)"
  using assms by (simp add: submitAnswer_def plumbing Let_def)

lemma submitAnswer_throws:
  assumes "acceptingAnswers s" and "question_at (currentQuestionIndex s) = Some q"
    and "questionId p = JNum (id_q q)" and "c \<notin> set (answeredThisRound s)"
    and "lookup_player (players s) c \<noteq> Missing" and "answerNumber p = NumThrows"
  shows "submitAnswer c (PFields p) s = Inl TypeError"
  using assms by (simp add: submitAnswer_def plumbing Let_def)

lemma submitAnswer_recorded:
  "c \<in> set (answeredThisRound s) \<Longrightarrow> submitAnswer c (PFields p) s = Inr s"
  by (simp add: submitAnswer_def split: option.splits)

lemma submitAnswer_recorded_run:
  "c \<in> set (answeredThisRound s) \<Longrightarrow> run (map (\<lambda>p. SubmitAnswer c (PFields p)) ps) s = Inr s"
  by (induction ps) (simp_all add: submitAnswer_recorded)

lemma submitAnswer_registered:
  assumes "acceptingAnswers s" and "question_at (currentQuestionIndex s) = Some q"
    and "questionId p = JNum (id_q q)" and "c \<notin> set (answeredThisRound s)"
    and "map_of (players s) c = Some ply" and "answerNumber p \<noteq> NumThrows"
  shows "submitAnswer c (PFields p) s =
      (let correct = (answerNumber p = NumInt (answerIndex q));
           ps' = (if correct then AList.update c (ply\<lparr>score := score ply + 10\<rparr>) (players s)
                  else players s);
           s4 = s\<lparr>answeredThisRound := answeredThisRound s @ [c], players := ps',
                  sent := sent s @
                    [(ToSocket c, AnswerSaved (questionId p) (answerIndex q) correct True),
                     (ToRoom, Leaderboard (leaderboard (s\<lparr>players := ps'\<rparr>)))]\<rparr>
       in if length (answeredThisRound s) + 1 \<ge> length (players s)
          then Inr (s4\<lparr>acceptingAnswers := False,
                 timers := filter (\<lambda>(k, cb). Some k \<noteq> questionTimer s) (timers s)
                           @ [(nextHandle s, CbSendQuestion)],
                 nextHandle := Suc (nextHandle s),
                 sent := sent s4 @
                   [(ToRoom, AnswerResult (id_q q) (answerIndex q) ''All players answered''),
                    (ToRoom, Leaderboard (leaderboard (s\<lparr>players := ps'\<rparr>)))]\<rparr>)
          else Inr s4)"
  using assms map_of_players_keys[OF assms(5)] lookup_player_Own[OF assms(5)]
  by (cases "questionTimer s")
     (auto simp add: submitAnswer_def credit_def plumbing Let_def endQuestionAndMaybeNext_def
        leaderboard_def length_update_present)

lemma submitAnswer_registered_fields:
  assumes "acceptingAnswers s" and "question_at (currentQuestionIndex s) = Some q"
    and "questionId p = JNum (id_q q)" and "c \<notin> set (answeredThisRound s)"
    and "map_of (players s) c = Some ply" and "answerNumber p \<noteq> NumThrows"
  shows "\<exists>s'. submitAnswer c (PFields p) s = Inr s' \<and>
           answeredThisRound s' = answeredThisRound s @ [c] \<and>
           players s' = (if answerNumber p = NumInt (answerIndex q)
                         then AList.update c (ply\<lparr>score := score ply + 10\<rparr>) (players s)
                         else players s) \<and>
           activePlayerCount s' = activePlayerCount s \<and> 0 < activePlayerCount s \<and>
           acceptingAnswers s' = (length (answeredThisRound s') < activePlayerCount s') \<and>
           sent s' = sent s @
             [(ToSocket c, AnswerSaved (questionId p) (answerIndex q)
                             (answerNumber p = NumInt (answerIndex q)) True),
              (ToRoom, Leaderboard (leaderboard s'))] @
             (if activePlayerCount s' \<le> length (answeredThisRound s')
              then [(ToRoom, AnswerResult (id_q q) (answerIndex q) ''All players answered''),
                    (ToRoom, Leaderboard (leaderboard s'))]
              else []) \<and>
           timers s' =
             (if activePlayerCount s' \<le> length (answeredThisRound s')
              then filter (\<lambda>(k, cb). Some k \<noteq> questionTimer s) (timers s)
                   @ [(nextHandle s, CbSendQuestion)]
              else timers s)"
proof -
  have mem: "c \<in> fst ` set (players s)"
    using assms(5) by (metis map_of_eq_None_iff option.distinct(1))
  then have pos: "0 < length (players s)"
    by auto
  show ?thesis
    using pos mem assms(1)
    by (simp add: submitAnswer_registered[OF assms] Let_def activePlayerCount_def leaderboard_def
        length_update_present)
qed

section \<open>The question timer and the scheduled advance\<close>

lemma no_stale_question_timer:
  "timers_wf s \<Longrightarrow>
   filter (\<lambda>(h, cb). cb = CbTimeUp) (filter (\<lambda>(k, cb). Some k \<noteq> questionTimer s) (timers s)) = []"
  by (auto simp add: timers_wf_def filter_empty_conv)

lemma pending_after_sendQuestion:
  assumes "timers_wf s" and "sendQuestion s = Inr s'" and "acceptingAnswers s'"
  shows "pending_question_timers s' = [nextHandle s] \<and> questionTimer s' = Some (nextHandle s)"
  using assms no_stale_question_timer[OF assms(1)]
  by (auto simp add: sendQuestion_eq pending_question_timers_def split: if_splits option.splits)

lemma submitAnswer_ends_round_timers:
  assumes "submitAnswer c pl s = Inr s'" and "acceptingAnswers s" and "\<not> acceptingAnswers s'"
  shows "timers s' = filter (\<lambda>(k, cb). Some k \<noteq> questionTimer s) (timers s)
                       @ [(nextHandle s, CbSendQuestion)]"
  using assms
  by (cases "questionTimer s")
     (auto simp add: submitAnswer_def credit_def plumbing Let_def endQuestion_eq
        split: payload.splits if_splits option.splits found.splits)

lemma disconnect_ends_round_timers:
  assumes "disconnect c s = Inr s'" and "acceptingAnswers s" and "\<not> acceptingAnswers s'"
  shows "timers s' = filter (\<lambda>(k, cb). Some k \<noteq> questionTimer s) (timers s)
                       @ [(nextHandle s, CbSendQuestion)]"
  using assms
  by (cases "questionTimer s")
     (auto simp add: disconnect_def plumbing Let_def endQuestion_eq
        split: if_splits option.splits)

lemma nextQuestion_timers:
  assumes "nextQuestion c s = Inr s'" and "currentQuestionIndex s \<noteq> - 1"
  shows "timers s' = filter (\<lambda>(k, cb). Some k \<noteq> questionTimer s) (timers s)
                       @ [(nextHandle s, CbSendQuestion)]"
  using assms
  by (cases "questionTimer s")
     (auto simp add: nextQuestion_def plumbing Let_def endQuestion_eq
        split: if_splits option.splits)

lemma pending_of_ended:
  assumes "timers_wf s"
    and "timers s' = filter (\<lambda>(k, cb). Some k \<noteq> questionTimer s) (timers s)
                       @ [(nextHandle s, CbSendQuestion)]"
  shows "pending_question_timers s' = []"
  using no_stale_question_timer[OF assms(1)] assms(2)
  by (simp add: pending_question_timers_def)

lemma restartQuiz_pending:
  assumes "timers_wf s" and "restartQuiz c pl s = Inr s'"
  shows "pending_question_timers s' = [nextHandle s] \<and> questionTimer s' = Some (nextHandle s)"
proof -
  obtain v where eq: "sendQuestion (emit ToRoom (QuizState ''running'') (resetGame v s)) = Inr s'"
    using assms(2) by (cases pl) (auto simp add: restartQuiz_def)
  let ?s1 = "emit ToRoom (QuizState ''running'') (resetGame v s)"
  have wf1: "timers_wf ?s1"
    using assms(1) by (intro wf_emit wf_resetGame)
  have acc: "acceptingAnswers s'"
    using eq by (auto simp add: sendQuestion_eq emit_def resetGame_eq length_questions
        split: if_splits option.splits)
  have "nextHandle ?s1 = nextHandle s"
    by (simp add: emit_def resetGame_eq)
  with pending_after_sendQuestion[OF wf1 eq acc] show ?thesis
    by simp
qed

lemma startQuiz_pending:
  assumes "timers_wf s" and "startQuiz c s = Inr s'" and "currentQuestionIndex s = - 1"
  shows "pending_question_timers s' = [nextHandle s] \<and> questionTimer s' = Some (nextHandle s)"
proof -
  let ?s1 = "emit ToRoom (QuizState ''running'') s"
  have eq: "sendQuestion ?s1 = Inr s'"
    using assms by (simp add: startQuiz_def)
  have wf1: "timers_wf ?s1"
    using assms(1) by (rule wf_emit)
  have acc: "acceptingAnswers s'"
    using eq assms(3) by (auto simp add: sendQuestion_eq emit_def length_questions
        split: if_splits option.splits)
  from pending_after_sendQuestion[OF wf1 eq acc] show ?thesis
    by (simp add: emit_def)
qed

lemma advance_pending:
  assumes "timers_wf s" and "fire h s = Inr s'" and "map_of (timers s) h = Some CbSendQuestion"
    and "acceptingAnswers s'"
  shows "pending_question_timers s' = [nextHandle s] \<and> questionTimer s' = Some (nextHandle s)"
proof -
  let ?s1 = "s\<lparr>timers := filter (\<lambda>(k, cb). k \<noteq> h) (timers s)\<rparr>"
  have eq: "sendQuestion ?s1 = Inr s'"
    using assms by (simp add: fire_def)
  have wf1: "timers_wf ?s1"
    using assms(1) by (rule wf_filter)
  from pending_after_sendQuestion[OF wf1 eq assms(4)] show ?thesis
    by simp
qed

lemma advance_kept_clear:
  "timers_wf s \<Longrightarrow> (h, CbSendQuestion) \<in> set (timers s) \<Longrightarrow>
   (h, CbSendQuestion) \<in> set (timers (clearTimeout (questionTimer s) s))"
  by (cases "questionTimer s") (auto simp add: clearTimeout_def timers_wf_def)

lemma advance_kept_step:
  assumes wf: "timers_wf s" and h: "(h, CbSendQuestion) \<in> set (timers s)"
    and st: "step e s = Inr s'" and e: "e \<noteq> TimerFires h"
  shows "(h, CbSendQuestion) \<in> set (timers s')"
proof (cases e)
  case (JoinQuiz c pl)
  with h st show ?thesis
    by (auto simp add: joinQuiz_def plumbing Let_def split: payload.splits if_splits)
next
  case (StartQuiz c)
  with wf h st show ?thesis
    by (auto simp add: startQuiz_def emit_def timers_wf_def sendQuestion_eq
        split: if_splits option.splits)
next
  case (RestartQuiz c pl)
  with wf h st show ?thesis
    by (cases pl)
       (auto simp add: restartQuiz_def emit_def resetGame_eq timers_wf_def sendQuestion_eq
          split: if_splits option.splits)
next
  case (SubmitAnswer c pl)
  show ?thesis
  proof (cases "questionTimer s")
    case None
    with SubmitAnswer h st show ?thesis
      by (auto simp add: submitAnswer_def credit_def plumbing Let_def endQuestion_eq
          split: payload.splits if_splits option.splits found.splits)
  next
    case (Some t)
    with SubmitAnswer wf h st show ?thesis
      by (auto simp add: submitAnswer_def credit_def plumbing Let_def endQuestion_eq timers_wf_def
          split: payload.splits if_splits option.splits found.splits)
  qed
next
  case (NextQuestion c)
  with h st advance_kept_clear[OF wf h] show ?thesis
    by (cases "questionTimer s")
       (auto simp add: nextQuestion_def clearTimeout_def Let_def endQuestion_eq
          split: if_splits option.splits)
next
  case (GetLeaderboard c)
  with h st show ?thesis
    by (auto simp add: getLeaderboard_def plumbing)
next
  case (LeaveQuiz c)
  with h st show ?thesis
    by (auto simp add: leaveQuiz_def plumbing Let_def)
next
  case (Disconnect c)
  with h st advance_kept_clear[OF wf h] show ?thesis
    by (cases "questionTimer s")
       (auto simp add: disconnect_def plumbing Let_def endQuestion_eq
          split: if_splits option.splits)
next
  case (TimerFires k)
  with e have kh: "k \<noteq> h" by simp
  show ?thesis
  proof (cases "map_of (timers s) k")
    case None
    with TimerFires h st show ?thesis by (simp add: fire_def)
  next
    case (Some cb)
    with TimerFires wf h st kh show ?thesis
      by (cases cb)
         (auto simp add: fire_def endQuestion_eq sendQuestion_eq timers_wf_def
            split: if_splits option.splits)
  qed
qed

section \<open>Claims about joining\<close>

text \<open>
  C4.  The claim: a join whose nickname is empty after trimming, a nickname of white space
  only included, is rejected, with an error to the joining socket alone and no entry made;
  an accepted join stores the trimmed nickname cut to 20 code units.  The handler tests
  \<^verbatim>\<open>!nickname\<close> before it trims, so the three spaces below pass the test: the join is
  accepted, the socket is told the status, and the registry holds a player whose
  nickname is the empty string.
\<close>

theorem joinQuiz_whitespace_nickname_accepted:
  "step (JoinQuiz ''a'' (PFields (JStr [0x20, 0x20, 0x20]))) init_state =
     Inr (init_state\<lparr>players := [(''a'', \<lparr>nickname = [], score = 0\<rparr>)],
                      room := {''a''},
                      sent := [(ToSocket ''a'', QuizState ''lobby''),
                               (ToRoom, Leaderboard [([], 0)])]\<rparr>)"
  by (simp add: eval)

text \<open>
  What does hold of the handler: a nickname that is not a string, or is the empty
  string, is rejected with \<^verbatim>\<open>errorMsg\<close> to the sender and nothing else changes; every other
  nickname is accepted and stored trimmed and cut to at most 20 code units.
\<close>

lemma joinQuiz_rejected:
  assumes "\<not> (truthy nick \<and> is_string nick)"
  shows "joinQuiz c (PFields nick) s =
           Inr (s\<lparr>sent := sent s @ [(ToSocket c, ErrorMsg ''Nickname is required'')]\<rparr>)"
  using assms by (auto simp add: joinQuiz_def emit_def)

lemma joinQuiz_accepted_nickname:
  assumes "n \<noteq> []"
  shows "\<exists>s'. joinQuiz c (PFields (JStr n)) s = Inr s' \<and>
           map_of (players s') c = Some \<lparr>nickname = take 20 (trim n), score = 0\<rparr> \<and>
           length (take 20 (trim n)) \<le> 20"
  using assms by (simp add: joinQuiz_def plumbing Let_def update_conv' slice0_def)

text \<open>
  C10.  A join (with a nickname the handler accepts, that is, a non-empty string) from a
  socket that already has an entry replaces the entry by a fresh one with score 0,
  whatever the entry held and whatever the state of the session: the index and the
  accepting flag play no part and are left as they were.  The entry keeps its place in
  the registry and no other entry changes.
\<close>

theorem joinQuiz_rejoin_resets_score:
  assumes "n \<noteq> []" and "map_of (players s) c = Some p"
  shows "\<exists>s'. joinQuiz c (PFields (JStr n)) s = Inr s' \<and>
           map_of (players s') c = Some \<lparr>nickname = slice0 20 (trim n), score = 0\<rparr> \<and>
           map fst (players s') = map fst (players s) \<and>
           (\<forall>c'. c' \<noteq> c \<longrightarrow> map_of (players s') c' = map_of (players s) c') \<and>
           currentQuestionIndex s' = currentQuestionIndex s \<and>
           acceptingAnswers s' = acceptingAnswers s"
  using assms map_of_players_keys[OF assms(2)]
  by (simp add: joinQuiz_def plumbing Let_def update_conv' update_keys)

text \<open>A player with 10 points joins again in the middle of a round and is back at 0.\<close>

theorem joinQuiz_rejoin_resets_score_witness:
  "ab \<noteq> [] \<and>
   map_of (players (after duo_scored)) ''a'' = Some \<lparr>nickname = ab, score = 10\<rparr> \<and>
   (\<exists>s'. joinQuiz ''a'' (PFields (JStr ab)) (after duo_scored) = Inr s' \<and>
      map_of (players s') ''a'' = Some \<lparr>nickname = slice0 20 (trim ab), score = 0\<rparr> \<and>
      map_of (players s') ''b'' = map_of (players (after duo_scored)) ''b'' \<and>
      acceptingAnswers s' = acceptingAnswers (after duo_scored))"
proof -
  have a: "ab \<noteq> []"
    by (simp add: ab_def)
  have b: "map_of (players (after duo_scored)) ''a'' = Some \<lparr>nickname = ab, score = 10\<rparr>"
    by (simp add: eval scenarios)
  from joinQuiz_rejoin_resets_score[OF a b] obtain s' where
    s': "joinQuiz ''a'' (PFields (JStr ab)) (after duo_scored) = Inr s'"
      "map_of (players s') ''a'' = Some \<lparr>nickname = slice0 20 (trim ab), score = 0\<rparr>"
      "\<forall>c'. c' \<noteq> ''a'' \<longrightarrow> map_of (players s') c' = map_of (players (after duo_scored)) c'"
      "acceptingAnswers s' = acceptingAnswers (after duo_scored)"
    by blast
  from s'(3) have other: "map_of (players s') ''b'' = map_of (players (after duo_scored)) ''b''"
    by simp
  from a b s'(1) s'(2) other s'(4) show ?thesis
    by (intro conjI exI[of _ s']) (assumption+)
qed


section \<open>Claims about starting and restarting\<close>

text \<open>
  C8.  \<^verbatim>\<open>startQuiz\<close> when the index is not -1 changes nothing and emits nothing: the whole
  state, the log of emitted events included, is as before.  When the index is -1 it
  broadcasts the status \<^verbatim>\<open>'running'\<close> to the room and calls \<^verbatim>\<open>sendQuestion\<close>; that call
  succeeds, serves the first question of the catalog, opens the round and arms the
  question timer.
\<close>

theorem startQuiz_spec:
  "(currentQuestionIndex s \<noteq> - 1 \<longrightarrow> startQuiz c s = Inr s) \<and>
   (currentQuestionIndex s = - 1 \<longrightarrow>
      startQuiz c s = sendQuestion (emit ToRoom (QuizState ''running'') s) \<and>
      (\<exists>s'. startQuiz c s = Inr s' \<and>
         sent s' = sent s @
           [(ToRoom, QuizState ''running''),
            (ToRoom, Question (id_q (questions ! 0)) (text_q (questions ! 0)) (options (questions ! 0))
                       0 (length questions) QUESTION_DURATION_MS)] \<and>
         room_status s' = ''running'' \<and> join_status s' = ''running'' \<and>
         currentQuestionIndex s' = 0 \<and> acceptingAnswers s' \<and>
         players s' = players s \<and> answeredThisRound s' = [] \<and>
         questionTimer s' = Some (nextHandle s) \<and>
         (nextHandle s, CbTimeUp) \<in> set (timers s')))"
  by (simp add: startQuiz_def sendQuestion_def plumbing question_at_0 length_questions
      join_status_def room_status_def Let_def split: option.splits)

text \<open>The first start from the initial state, and a second start once a round is open.\<close>

theorem startQuiz_spec_witness:
  "currentQuestionIndex init_state = - 1 \<and>
   startQuiz ''a'' init_state = sendQuestion (emit ToRoom (QuizState ''running'') init_state) \<and>
   (\<exists>s'. startQuiz ''a'' init_state = Inr s' \<and> room_status s' = ''running'' \<and>
      currentQuestionIndex s' = 0 \<and> acceptingAnswers s') \<and>
   currentQuestionIndex (after solo_round) \<noteq> - 1 \<and>
   startQuiz ''b'' (after solo_round) = Inr (after solo_round)"
proof -
  have a: "currentQuestionIndex init_state = - 1"
    by (simp add: init_state_def)
  have b: "currentQuestionIndex (after solo_round) \<noteq> - 1"
    by (simp add: eval scenarios)
  from a b startQuiz_spec[of init_state "''a''"] startQuiz_spec[of "after solo_round" "''b''"]
  show ?thesis
    by blast
qed

text \<open>
  C5.  The claim: a restart with \<^verbatim>\<open>resetScores\<close> true zeroes every score, with false it
  keeps the scores, and either way it resumes at index 0, cancels the pending timer,
  clears the record of answers and goes on like a start from index -1.
  \<^verbatim>\<open>resetGame\<close> clears the timer kept in \<^verbatim>\<open>questionTimer\<close> (line 243), but the timer of
  the pause after a round (line 268) is kept nowhere and stays.  Below, the host skips the
  first question and restarts within the pause, once with \<^verbatim>\<open>resetScores\<close> true and once
  with false: the timer that was pending before the restart (handle 1) is still pending
  after it, and when it fires the quiz is at index 1, not resumed at index 0.
\<close>

theorem restart_leaves_advance_pending:
  "run solo_skipped init_state = Inr (after solo_skipped) \<and>
   timers (after solo_skipped) = [(1, CbSendQuestion)] \<and>
   step (RestartQuiz ''a'' (PFields (JBool True))) (after solo_skipped) =
     Inr (after (restart_in_pause True)) \<and>
   timers (after (restart_in_pause True)) = [(1, CbSendQuestion), (2, CbTimeUp)] \<and>
   currentQuestionIndex (after (restart_in_pause True)) = 0 \<and>
   step (TimerFires 1) (after (restart_in_pause True)) =
     Inr (after (restart_in_pause True @ [TimerFires 1])) \<and>
   currentQuestionIndex (after (restart_in_pause True @ [TimerFires 1])) = 1 \<and>
   step (RestartQuiz ''a'' (PFields (JBool False))) (after solo_skipped) =
     Inr (after (restart_in_pause False)) \<and>
   timers (after (restart_in_pause False)) = [(1, CbSendQuestion), (2, CbTimeUp)] \<and>
   currentQuestionIndex (after (restart_in_pause False)) = 0 \<and>
   step (TimerFires 1) (after (restart_in_pause False)) =
     Inr (after (restart_in_pause False @ [TimerFires 1])) \<and>
   currentQuestionIndex (after (restart_in_pause False @ [TimerFires 1])) = 1"
  by (simp add: eval scenarios)

text \<open>
  What does hold of a restart, in every reachable state: with \<^verbatim>\<open>resetScores\<close> true every
  player's score becomes 0 (nicknames and order kept), with false the registry is
  unchanged; the index is 0 afterwards, the round is open, nobody has answered, the
  question timer that was kept in \<^verbatim>\<open>questionTimer\<close> is no longer pending and the only
  pending question timer is the new one, the room is told \<^verbatim>\<open>'running'\<close> and the first
  question, and the handler does what \<^verbatim>\<open>startQuiz\<close> does on the state \<^verbatim>\<open>resetGame\<close>
  leaves, whose index is -1.
\<close>

lemma restartQuiz_effects:
  assumes "reachable s"
  shows "\<exists>s'. restartQuiz c (PFields (JBool b)) s = Inr s' \<and>
           players s' = (if b then map (\<lambda>(k, p). (k, p\<lparr>score := 0\<rparr>)) (players s) else players s) \<and>
           currentQuestionIndex s' = 0 \<and> acceptingAnswers s' \<and> answeredThisRound s' = [] \<and>
           pending_question_timers s' = [nextHandle s] \<and> questionTimer s' = Some (nextHandle s) \<and>
           (\<forall>h \<in> set_option (questionTimer s). h \<notin> fst ` set (timers s')) \<and>
           sent s' = sent s @
             [(ToRoom, QuizState ''running''),
              (ToRoom, Question (id_q (questions ! 0)) (text_q (questions ! 0)) (options (questions ! 0))
                         0 (length questions) QUESTION_DURATION_MS)] \<and>
           currentQuestionIndex (resetGame (JBool b) s) = - 1 \<and>
           restartQuiz c (PFields (JBool b)) s = startQuiz c (resetGame (JBool b) s)"
proof -
  have wf: "timers_wf s"
    using assms by (rule reachable_timers_wf)
  obtain s' where r: "restartQuiz c (PFields (JBool b)) s = Inr s'"
    by (auto simp add: restartQuiz_def sendQuestion_eq emit_def resetGame_eq question_at_0
        length_questions)
  have fresh: "\<forall>h \<in> set_option (questionTimer s). h \<notin> fst ` set (timers s')"
    using wf r
    by (auto simp add: restartQuiz_def sendQuestion_eq emit_def resetGame_eq question_at_0
        length_questions timers_wf_def)
  have fields: "players s' = (if b then map (\<lambda>(k, p). (k, p\<lparr>score := 0\<rparr>)) (players s) else players s)
      \<and> currentQuestionIndex s' = 0 \<and> acceptingAnswers s' \<and> answeredThisRound s' = [] \<and>
      sent s' = sent s @
             [(ToRoom, QuizState ''running''),
              (ToRoom, Question (id_q (questions ! 0)) (text_q (questions ! 0)) (options (questions ! 0))
                         0 (length questions) QUESTION_DURATION_MS)]"
    using r
    by (auto simp add: restartQuiz_def sendQuestion_eq emit_def resetGame_eq question_at_0
        length_questions default_true_def)
  have like_start: "currentQuestionIndex (resetGame (JBool b) s) = - 1 \<and>
      restartQuiz c (PFields (JBool b)) s = startQuiz c (resetGame (JBool b) s)"
    by (simp add: restartQuiz_def startQuiz_def resetGame_eq default_true_def)
  from r fresh fields like_start restartQuiz_pending[OF wf r] show ?thesis
    by simp
qed


section \<open>Claims about the invariant of the accepting flag\<close>

text \<open>
  C7.  In every reachable state, and so after every handler and every timer callback that
  returns, \<^verbatim>\<open>acceptingAnswers\<close> is true only when the status is \<^verbatim>\<open>'running'\<close> and the index
  is within the catalog.  The status is read both ways the code offers: the last
  \<^verbatim>\<open>quizState\<close> broadcast to the room, and the status line 318 computes for a joiner.
\<close>

theorem accepting_only_while_running:
  assumes "reachable s"
  shows "accepting_ok s \<and> (\<forall>e s'. step e s = Inr s' \<longrightarrow> accepting_ok s')"
proof -
  have inv: "session_inv s"
    using assms by (rule reachable_session_inv)
  have "accepting_ok s'" if "step e s = Inr s'" for e s'
    using inv that by (blast intro: session_inv_step session_inv_accepting_ok)
  with inv show ?thesis
    by (simp add: session_inv_accepting_ok)
qed

text \<open>An open round, and the same round after a second player has joined.\<close>

theorem accepting_only_while_running_witness:
  "reachable (after solo_round) \<and> acceptingAnswers (after solo_round) \<and>
   room_status (after solo_round) = ''running'' \<and> join_status (after solo_round) = ''running'' \<and>
   0 \<le> currentQuestionIndex (after solo_round) \<and>
   currentQuestionIndex (after solo_round) < int (length questions) \<and>
   step (JoinQuiz ''b'' (PFields (JStr ab))) (after solo_round) =
     Inr (after (solo_round @ [JoinQuiz ''b'' (PFields (JStr ab))])) \<and>
   acceptingAnswers (after (solo_round @ [JoinQuiz ''b'' (PFields (JStr ab))])) \<and>
   room_status (after (solo_round @ [JoinQuiz ''b'' (PFields (JStr ab))])) = ''running''"
proof -
  have r: "reachable (after solo_round)"
    by (rule reachable_after)
  have a: "acceptingAnswers (after solo_round)"
    by (simp add: eval scenarios)
  have st: "step (JoinQuiz ''b'' (PFields (JStr ab))) (after solo_round) =
     Inr (after (solo_round @ [JoinQuiz ''b'' (PFields (JStr ab))]))"
    by (simp add: eval scenarios)
  have a': "acceptingAnswers (after (solo_round @ [JoinQuiz ''b'' (PFields (JStr ab))]))"
    by (simp add: eval scenarios)
  from accepting_only_while_running[OF r] a a' st r show ?thesis
    unfolding accepting_ok_def by blast
qed


section \<open>Claims about submitting an answer\<close>

text \<open>
  C2.  A submission that the handler accepts (the round is open, the question id is the
  current question's, the socket has not answered this round and has a player) and that
  carries the correct answer adds exactly 10 to that player's score, changes no other
  player and records the socket.  After it, any number of further submissions from the
  same socket, with any payload fields, return the state unchanged: score, record of
  answers and everything else.
\<close>

theorem submitAnswer_correct_scores_once:
  assumes "acceptingAnswers s" and "question_at (currentQuestionIndex s) = Some q"
    and "questionId p = JNum (id_q q)" and "c \<notin> set (answeredThisRound s)"
    and "map_of (players s) c = Some ply" and "answerNumber p = NumInt (answerIndex q)"
  shows "\<exists>s1. submitAnswer c (PFields p) s = Inr s1 \<and>
           map_of (players s1) c = Some (ply\<lparr>score := score ply + 10\<rparr>) \<and>
           (\<forall>c'. c' \<noteq> c \<longrightarrow> map_of (players s1) c' = map_of (players s) c') \<and>
           answeredThisRound s1 = answeredThisRound s @ [c] \<and>
           (\<forall>ps. run (map (\<lambda>p'. SubmitAnswer c (PFields p')) ps) s1 = Inr s1)"
proof -
  have "answerNumber p \<noteq> NumThrows"
    using assms(6) by simp
  from submitAnswer_registered_fields[OF assms(1-5) this] obtain s1 where
    r: "submitAnswer c (PFields p) s = Inr s1"
    and a: "answeredThisRound s1 = answeredThisRound s @ [c]"
    and pl: "players s1 = AList.update c (ply\<lparr>score := score ply + 10\<rparr>) (players s)"
    using assms(6) by auto
  have "c \<in> set (answeredThisRound s1)"
    using a by simp
  then have "run (map (\<lambda>p'. SubmitAnswer c (PFields p')) ps) s1 = Inr s1" for ps
    by (rule submitAnswer_recorded_run)
  with r a pl show ?thesis
    by (simp add: update_conv')
qed

text \<open>
  The first of two players answers the first question correctly and then submits twice
  more, once with the right and once with a wrong answer.
\<close>

theorem submitAnswer_correct_scores_once_witness:
  "acceptingAnswers (after duo_round) \<and>
   question_at (currentQuestionIndex (after duo_round)) = Some (questions ! 0) \<and>
   ''a'' \<notin> set (answeredThisRound (after duo_round)) \<and>
   map_of (players (after duo_round)) ''a'' = Some \<lparr>nickname = ab, score = 0\<rparr> \<and>
   (\<exists>s1. submitAnswer ''a'' (PFields \<lparr>questionId = JNum 1, answerNumber = NumInt 1\<rparr>) (after duo_round)
            = Inr s1 \<and>
      map_of (players s1) ''a'' = Some \<lparr>nickname = ab, score = 10\<rparr> \<and>
      map_of (players s1) ''b'' = map_of (players (after duo_round)) ''b'' \<and>
      run [SubmitAnswer ''a'' (PFields \<lparr>questionId = JNum 1, answerNumber = NumInt 1\<rparr>),
           SubmitAnswer ''a'' (PFields \<lparr>questionId = JNum 1, answerNumber = NumInt 0\<rparr>)] s1 = Inr s1)"
proof -
  let ?p = "\<lparr>questionId = JNum 1, answerNumber = NumInt 1\<rparr>"
  have h1: "acceptingAnswers (after duo_round)"
    by (simp add: eval scenarios)
  have h2: "question_at (currentQuestionIndex (after duo_round)) = Some (questions ! 0)"
    by (simp add: eval scenarios)
  have h3: "questionId ?p = JNum (id_q (questions ! 0))"
    by (simp add: questions_def)
  have h4: "''a'' \<notin> set (answeredThisRound (after duo_round))"
    by (simp add: eval scenarios)
  have h5: "map_of (players (after duo_round)) ''a'' = Some \<lparr>nickname = ab, score = 0\<rparr>"
    by (simp add: eval scenarios)
  have h6: "answerNumber ?p = NumInt (answerIndex (questions ! 0))"
    by (simp add: questions_def)
  from submitAnswer_correct_scores_once[OF h1 h2 h3 h4 h5 h6] obtain s1 where
    s1: "submitAnswer ''a'' (PFields ?p) (after duo_round) = Inr s1"
      "map_of (players s1) ''a'' = Some (\<lparr>nickname = ab, score = 0\<rparr>\<lparr>score := 0 + 10\<rparr>)"
      "\<forall>c'. c' \<noteq> ''a'' \<longrightarrow> map_of (players s1) c' = map_of (players (after duo_round)) c'"
      "\<forall>ps. run (map (\<lambda>p'. SubmitAnswer ''a'' (PFields p')) ps) s1 = Inr s1"
    by auto
  from s1(4) have again:
    "run (map (\<lambda>p'. SubmitAnswer ''a'' (PFields p'))
       [\<lparr>questionId = JNum 1, answerNumber = NumInt 1\<rparr>,
        \<lparr>questionId = JNum 1, answerNumber = NumInt 0\<rparr>]) s1 = Inr s1"
    by (rule spec)
  from s1(3) have other: "map_of (players s1) ''b'' = map_of (players (after duo_round)) ''b''"
    by simp
  from h1 h2 h4 h5 s1(1) s1(2) other again show ?thesis
    by auto
qed





text \<open>
  What does hold: when the lookup finds nothing, the submission returns with the socket
  added to the record of answers and nothing else changed, and the socket then counts: a
  later accepted submission of a player ends the round early exactly when the recorded
  sockets, this one among them, are at least as many as the players.
\<close>

lemma submitAnswer_missing_counts:
  assumes "acceptingAnswers s" and "question_at (currentQuestionIndex s) = Some q"
    and "questionId p = JNum (id_q q)" and "c \<notin> set (answeredThisRound s)"
    and "lookup_player (players s) c = Missing"
  shows "submitAnswer c (PFields p) s = Inr (s\<lparr>answeredThisRound := answeredThisRound s @ [c]\<rparr>) \<and>
         (\<forall>c2 p2 ply.
            c2 \<notin> set (answeredThisRound s) \<and> map_of (players s) c2 = Some ply \<and>
            questionId p2 = JNum (id_q q) \<and> answerNumber p2 \<noteq> NumThrows \<longrightarrow>
            (\<exists>s2. submitAnswer c2 (PFields p2) (s\<lparr>answeredThisRound := answeredThisRound s @ [c]\<rparr>)
                    = Inr s2 \<and>
                  answeredThisRound s2 = answeredThisRound s @ [c, c2] \<and>
                  activePlayerCount s2 = activePlayerCount s \<and>
                  acceptingAnswers s2 = (length (answeredThisRound s) + 2 < activePlayerCount s) \<and>
                  (activePlayerCount s \<le> length (answeredThisRound s) + 2 \<longrightarrow>
                     last (timers s2) = (nextHandle s, CbSendQuestion) \<and>
                     (ToRoom, AnswerResult (id_q q) (answerIndex q) ''All players answered'')
                       \<in> set (drop (length (sent s)) (sent s2)))))"
proof (intro conjI allI impI)
  show "submitAnswer c (PFields p) s = Inr (s\<lparr>answeredThisRound := answeredThisRound s @ [c]\<rparr>)"
    using assms by (rule submitAnswer_unregistered)
next
  fix c2 and p2 :: submission and ply
  assume h: "c2 \<notin> set (answeredThisRound s) \<and> map_of (players s) c2 = Some ply \<and>
            questionId p2 = JNum (id_q q) \<and> answerNumber p2 \<noteq> NumThrows"
  let ?s1 = "s\<lparr>answeredThisRound := answeredThisRound s @ [c]\<rparr>"
  have "map_of (players s) c = None"
    using assms(5) by (rule lookup_player_Missing)
  then have ne: "c2 \<noteq> c"
    using h by auto
  have a1: "acceptingAnswers ?s1" using assms(1) by simp
  have a2: "question_at (currentQuestionIndex ?s1) = Some q" using assms(2) by simp
  have a3: "questionId p2 = JNum (id_q q)" using h by simp
  have a4: "c2 \<notin> set (answeredThisRound ?s1)" using h ne by simp
  have a5: "map_of (players ?s1) c2 = Some ply" using h by simp
  have a6: "answerNumber p2 \<noteq> NumThrows" using h by simp
  from submitAnswer_registered_fields[OF a1 a2 a3 a4 a5 a6]
  show "\<exists>s2. submitAnswer c2 (PFields p2) ?s1 = Inr s2 \<and>
                  answeredThisRound s2 = answeredThisRound s @ [c, c2] \<and>
                  activePlayerCount s2 = activePlayerCount s \<and>
                  acceptingAnswers s2 = (length (answeredThisRound s) + 2 < activePlayerCount s) \<and>
                  (activePlayerCount s \<le> length (answeredThisRound s) + 2 \<longrightarrow>
                     last (timers s2) = (nextHandle s, CbSendQuestion) \<and>
                     (ToRoom, AnswerResult (id_q q) (answerIndex q) ''All players answered'')
                       \<in> set (drop (length (sent s)) (sent s2)))"
    by (auto simp add: activePlayerCount_def)
qed


section \<open>Claims about disconnecting\<close>

text \<open>
  C1.  The claim: when the only player disconnects while the round is open and nobody
  has answered, the handler only broadcasts the leaderboard and does not end the round;
  it ends the round only when players remain and all of them have answered.  The
  handler's test is \<^verbatim>\<open>acceptingAnswers && answeredThisRound.size >= total\<close>, without the
  \<^verbatim>\<open>total > 0\<close> that the same test has in \<^verbatim>\<open>submitAnswer\<close> (line 366).  With no
  player left it reads \<^verbatim>\<open>0 >= 0\<close>: the round is ended with the reason
  \<^verbatim>\<open>'All remaining players answered'\<close>, the question timer is cleared and the next
  question is scheduled.
\<close>

theorem disconnect_sole_player_forces_round_end:
  "run solo_round init_state = Inr (after solo_round) \<and>
   acceptingAnswers (after solo_round) \<and>
   map fst (players (after solo_round)) = [''a''] \<and>
   answeredThisRound (after solo_round) = [] \<and>
   timers (after solo_round) = [(0, CbTimeUp)] \<and>
   disconnect ''a'' (after solo_round) =
     Inr ((after solo_round)
           \<lparr>players := [], room := {}, acceptingAnswers := False,
            timers := [(1, CbSendQuestion)], nextHandle := 2,
            sent := sent (after solo_round) @
              [(ToRoom, AnswerResult 1 1 ''All remaining players answered''),
               (ToRoom, Leaderboard [])]\<rparr>)"
  by (simp add: eval scenarios)


section \<open>Claims about the scheduled callbacks\<close>

text \<open>
  C3.  The claim: starting a new round, ending a round early and restarting cancel every
  pending callback of the round they supersede, the question timer and the pause before
  the next question, so that no stale callback serves a question or ends a round later.
  The question timer is cleared in all these places, but the handle of the pause
  (line 268) is not kept, and nothing clears it.

  First, the host skips the first question, which schedules \<^verbatim>\<open>sendQuestion\<close> under handle
  1, and restarts before the 1500 ms are over.  After the restart the first question is
  open again and handle 1 is still pending, beside the new question timer (handle 2, due
  after 15000 ms).  When handle 1 fires, the round just opened is dropped and the second
  question is served.

  Second, the host presses ``next'' twice in a row, on the first and again on the third
  question.  Of the last two scheduled calls the first opens the fourth question and arms
  its timer (handle 7); the second, stale, finishes the quiz and returns before the
  \<^verbatim>\<open>clearTimeout\<close> of line 298.  The question timer is still pending in the finished quiz,
  and when it fires \<^verbatim>\<open>endQuestionAndMaybeNext\<close> reads \<^verbatim>\<open>questions[4].id\<close> and throws.
\<close>

theorem stale_advance_after_restart:
  "timers (after solo_skipped) = [(1, CbSendQuestion)] \<and>
   run skip_then_restart init_state = Inr (after skip_then_restart) \<and>
   restartQuiz ''a'' PUndefined (after solo_skipped) = Inr (after skip_then_restart) \<and>
   currentQuestionIndex (after skip_then_restart) = 0 \<and>
   acceptingAnswers (after skip_then_restart) \<and>
   timers (after skip_then_restart) = [(1, CbSendQuestion), (2, CbTimeUp)] \<and>
   fire 1 (after skip_then_restart) = Inr (after (skip_then_restart @ [TimerFires 1])) \<and>
   currentQuestionIndex (after (skip_then_restart @ [TimerFires 1])) = 1 \<and>
   sent (after (skip_then_restart @ [TimerFires 1])) =
     sent (after skip_then_restart) @
       [(ToRoom, Question 2 (text_q (questions ! 1)) (options (questions ! 1)) 1 4 15000)] \<and>
   run double_skips init_state = Inr (after double_skips) \<and>
   currentQuestionIndex (after double_skips) = 4 \<and>
   room_status (after double_skips) = ''finished'' \<and>
   timers (after double_skips) = [(7, CbTimeUp)] \<and>
   fire 7 (after double_skips) = Inl TypeError"
  by (simp add: eval scenarios room_status_def)

text \<open>
  What does hold, in every reachable state.  The question timer is cleared: after a
  restart, after \<^verbatim>\<open>startQuiz\<close> has started the quiz, and after a scheduled
  \<^verbatim>\<open>sendQuestion\<close> has opened a round, the only pending question timer is the one just
  armed, whose handle is in \<^verbatim>\<open>questionTimer\<close>; after the host has skipped a question,
  and after a submission or a disconnect has ended a round early, no question timer is
  pending.
\<close>

lemma question_timer_cleared:
  assumes "reachable s"
  shows
   "(\<forall>c pl s'. restartQuiz c pl s = Inr s' \<longrightarrow>
        pending_question_timers s' = [nextHandle s] \<and> questionTimer s' = Some (nextHandle s)) \<and>
    (\<forall>c s'. startQuiz c s = Inr s' \<and> currentQuestionIndex s = - 1 \<longrightarrow>
        pending_question_timers s' = [nextHandle s] \<and> questionTimer s' = Some (nextHandle s)) \<and>
    (\<forall>h s'. fire h s = Inr s' \<and> map_of (timers s) h = Some CbSendQuestion \<and> acceptingAnswers s' \<longrightarrow>
        pending_question_timers s' = [nextHandle s] \<and> questionTimer s' = Some (nextHandle s)) \<and>
    (\<forall>c s'. nextQuestion c s = Inr s' \<and> currentQuestionIndex s \<noteq> - 1 \<longrightarrow>
        pending_question_timers s' = []) \<and>
    (\<forall>c pl s'. submitAnswer c pl s = Inr s' \<and> acceptingAnswers s \<and> \<not> acceptingAnswers s' \<longrightarrow>
        pending_question_timers s' = []) \<and>
    (\<forall>c s'. disconnect c s = Inr s' \<and> acceptingAnswers s \<and> \<not> acceptingAnswers s' \<longrightarrow>
        pending_question_timers s' = [])"
proof -
  have wf: "timers_wf s"
    using assms by (rule reachable_timers_wf)
  show ?thesis
  proof (intro conjI allI impI)
    fix c pl s' assume "restartQuiz c pl s = Inr s'"
    then show "pending_question_timers s' = [nextHandle s]" "questionTimer s' = Some (nextHandle s)"
      using restartQuiz_pending[OF wf] by blast+
  next
    fix c s' assume "startQuiz c s = Inr s' \<and> currentQuestionIndex s = - 1"
    then show "pending_question_timers s' = [nextHandle s]" "questionTimer s' = Some (nextHandle s)"
      using startQuiz_pending[OF wf] by blast+
  next
    fix h s'
    assume "fire h s = Inr s' \<and> map_of (timers s) h = Some CbSendQuestion \<and> acceptingAnswers s'"
    then show "pending_question_timers s' = [nextHandle s]" "questionTimer s' = Some (nextHandle s)"
      using advance_pending[OF wf] by blast+
  next
    fix c s' assume "nextQuestion c s = Inr s' \<and> currentQuestionIndex s \<noteq> - 1"
    then show "pending_question_timers s' = []"
      using nextQuestion_timers pending_of_ended[OF wf] by blast
  next
    fix c pl s' assume "submitAnswer c pl s = Inr s' \<and> acceptingAnswers s \<and> \<not> acceptingAnswers s'"
    then show "pending_question_timers s' = []"
      using submitAnswer_ends_round_timers pending_of_ended[OF wf] by blast
  next
    fix c s' assume "disconnect c s = Inr s' \<and> acceptingAnswers s \<and> \<not> acceptingAnswers s'"
    then show "pending_question_timers s' = []"
      using disconnect_ends_round_timers pending_of_ended[OF wf] by blast
  qed
qed

text \<open>
  The defect in general: in a reachable state no handler and no other callback takes a
  scheduled \<^verbatim>\<open>sendQuestion\<close> out of the pending callbacks; it stays until it fires.
\<close>

lemma advance_never_cleared:
  assumes "reachable s" and "step e s = Inr s'" and "(h, CbSendQuestion) \<in> set (timers s)"
    and "e \<noteq> TimerFires h"
  shows "(h, CbSendQuestion) \<in> set (timers s')"
  using advance_kept_step[OF reachable_timers_wf[OF assms(1)] assms(3) assms(2) assms(4)] .

end
